theory Spec2Isabelle
  imports Complex_Main
begin

section \<open>The Snake engine of snake.py\<close>

text \<open>
  The class \<^verbatim>\<open>SnakeGame\<close> of \<^verbatim>\<open>src/snake.py\<close> is embedded as a record of its game
  fields and one HOL function for each method of the engine. Python integers are
  unbounded, so every number is an \<open>int\<close>; cells and directions are the raw tuples
  \<^verbatim>\<open>(row, col)\<close> of the source, so they are pairs of integers. A method takes the
  object's state and returns what the call produced (or the exception it raised)
  together with the state the object has afterwards. The fields that only serve the
  pygame display (\<^verbatim>\<open>cell_size\<close>, \<^verbatim>\<open>fps\<close>, \<^verbatim>\<open>screen\<close>, ...) are read by no method modelled
  here and are left out.
\<close>

subsection \<open>Data\<close>

type_synonym cell = "int \<times> int"

text \<open>The values of the enum \<^verbatim>\<open>Direction\<close>.\<close>

definition RIGHT :: cell where "RIGHT = (0, 1)"
definition DOWN :: cell where "DOWN = (1, 0)"
definition LEFT :: cell where "LEFT = (0, - 1)"
definition UP :: cell where "UP = (- 1, 0)"

datatype error = IndexError | TypeError | ValueError

record SnakeGame =
  width :: int
  height :: int
  snake :: "cell list"
  direction :: cell
  food_position :: "cell option"
  score :: int
  game_over :: bool
  steps :: int

text \<open>
  The outcome of a method call: \<open>Inr v\<close> when it returned \<open>v\<close>, \<open>Inl e\<close> when it raised
  \<open>e\<close>, and in both cases the state of the object at that moment.
\<close>

type_synonym 'a outcome = "(error + 'a) \<times> SnakeGame"

definition then_do ::
  "(SnakeGame \<Rightarrow> 'a outcome) \<Rightarrow> ('a \<Rightarrow> SnakeGame \<Rightarrow> 'b outcome) \<Rightarrow> SnakeGame \<Rightarrow> 'b outcome" where
  "then_do m f s = (case m s of (Inl e, s') \<Rightarrow> (Inl e, s') | (Inr x, s') \<Rightarrow> f x s')"

text \<open>
  A numpy array of three axes: its shape and its entries. An index \<open>i\<close> on an axis of
  size \<open>n\<close> is accepted when \<open>- n \<le> i < n\<close>, a negative one counting from the end;
  any other index raises \<^verbatim>\<open>IndexError\<close>.
\<close>

record ndarray =
  shape :: "nat \<times> nat \<times> nat"
  entry :: "nat \<times> nat \<times> nat \<Rightarrow> real"

definition zeros :: "nat \<times> nat \<times> nat \<Rightarrow> ndarray" where
  "zeros shp = \<lparr>shape = shp, entry = (\<lambda>_. 0)\<rparr>"

definition np_index :: "nat \<Rightarrow> int \<Rightarrow> nat option" where
  "np_index n i =
     (if 0 \<le> i \<and> i < int n then Some (nat i)
      else if - int n \<le> i \<and> i < 0 then Some (nat (i + int n))
      else None)"

definition setitem :: "ndarray \<Rightarrow> int \<Rightarrow> int \<Rightarrow> int \<Rightarrow> real \<Rightarrow> error + ndarray" where
  "setitem a i j k v =
     (case shape a of (n0, n1, n2) \<Rightarrow>
        (case (np_index n0 i, np_index n1 j, np_index n2 k) of
           (Some i', Some j', Some k') \<Rightarrow> Inr (a\<lparr>entry := (entry a)((i', j', k') := v)\<rparr>)
         | _ \<Rightarrow> Inl IndexError))"

subsection \<open>Food placement\<close>

text \<open>
  \<^verbatim>\<open>empty_cells\<close> is the list comprehension of \<^verbatim>\<open>place_food\<close>: rows outermost, in
  the order of \<^verbatim>\<open>range\<close>. \<^verbatim>\<open>random.choice(seq)\<close> returns \<^verbatim>\<open>seq[k]\<close> for an index \<open>k\<close>
  drawn below \<^verbatim>\<open>len(seq)\<close>; the draw of the generator is the parameter \<open>r\<close>, reduced
  below the length.
\<close>

definition empty_cells :: "SnakeGame \<Rightarrow> cell list" where
  "empty_cells s =
     [(i, j). i \<leftarrow> [0 .. height s - 1], j \<leftarrow> [0 .. width s - 1], (i, j) \<notin> set (snake s)]"

definition place_food :: "nat \<Rightarrow> SnakeGame \<Rightarrow> unit outcome" where
  "place_food r s =
     (let empty = empty_cells s in
      if empty \<noteq> [] then (Inr (), s\<lparr>food_position := Some (empty ! (r mod length empty))\<rparr>)
      else (Inr (), s))"

subsection \<open>Directions\<close>

definition is_valid_direction :: "SnakeGame \<Rightarrow> cell \<Rightarrow> bool" where
  "is_valid_direction s new_dir =
     (\<not> (fst new_dir = - fst (direction s) \<and> snd new_dir = - snd (direction s)))"

definition get_right_direction :: "SnakeGame \<Rightarrow> cell" where
  "get_right_direction s =
     (if direction s = RIGHT then DOWN
      else if direction s = DOWN then LEFT
      else if direction s = LEFT then UP
      else RIGHT)"

definition get_left_direction :: "SnakeGame \<Rightarrow> cell" where
  "get_left_direction s =
     (if direction s = RIGHT then UP
      else if direction s = UP then LEFT
      else if direction s = LEFT then DOWN
      else RIGHT)"

subsection \<open>The tick\<close>

text \<open>
  The first statement of \<^verbatim>\<open>update\<close>: a tuple of two numbers is truthy, \<^verbatim>\<open>None\<close> is
  not, so a supplied direction is adopted exactly when \<^verbatim>\<open>is_valid_direction\<close> accepts
  it.
\<close>

definition adopt_direction :: "cell option \<Rightarrow> SnakeGame \<Rightarrow> SnakeGame" where
  "adopt_direction d s =
     (case d of
        None \<Rightarrow> s
      | Some new_dir \<Rightarrow> if is_valid_direction s new_dir then s\<lparr>direction := new_dir\<rparr> else s)"

definition off_board :: "SnakeGame \<Rightarrow> cell \<Rightarrow> bool" where
  "off_board s p = (fst p < 0 \<or> fst p \<ge> height s \<or> snd p < 0 \<or> snd p \<ge> width s)"

definition update :: "cell option \<Rightarrow> nat \<Rightarrow> SnakeGame \<Rightarrow> unit outcome" where
  "update d r s =
     (let s1 = adopt_direction d s in
      case snake s1 of
        [] \<Rightarrow> (Inl IndexError, s1)
      | head # _ \<Rightarrow>
          let new_head = (fst head + fst (direction s1), snd head + snd (direction s1)) in
          if off_board s1 new_head then (Inr (), s1\<lparr>game_over := True\<rparr>)
          else if new_head \<in> set (snake s1) then (Inr (), s1\<lparr>game_over := True\<rparr>)
          else
            let s2 = s1\<lparr>snake := new_head # snake s1\<rparr> in
            then_do
              (\<lambda>s2. if Some new_head = food_position s2
                     then place_food r (s2\<lparr>score := score s2 + 1\<rparr>)
                     else (Inr (), s2\<lparr>snake := butlast (snake s2)\<rparr>))
              (\<lambda>_ s3. (Inr (), s3\<lparr>steps := steps s3 + 1\<rparr>))
              s2)"

subsection \<open>State encodings\<close>

definition check_danger :: "cell \<Rightarrow> SnakeGame \<Rightarrow> bool outcome" where
  "check_danger d s =
     (case snake s of
        [] \<Rightarrow> (Inl IndexError, s)
      | head # _ \<Rightarrow>
          let new_pos = (fst head + fst d, snd head + snd d) in
          if off_board s new_pos then (Inr True, s)
          else if new_pos \<in> set (snake s) then (Inr True, s)
          else (Inr False, s))"

text \<open>The loop of \<^verbatim>\<open>get_state\<close> over \<^verbatim>\<open>self.snake[1:]\<close>; it stops at the first bad index.\<close>

fun mark_body :: "cell list \<Rightarrow> ndarray \<Rightarrow> error + ndarray" where
  "mark_body [] a = Inr a"
| "mark_body (segment # rest) a =
     (case setitem a (fst segment) (snd segment) 0 1 of
        Inl e \<Rightarrow> Inl e
      | Inr a' \<Rightarrow> mark_body rest a')"

definition get_state :: "SnakeGame \<Rightarrow> ndarray outcome" where
  "get_state s =
     (if height s < 0 \<or> width s < 0 then (Inl ValueError, s)
      else
        case mark_body (drop 1 (snake s)) (zeros (nat (height s), nat (width s), 3)) of
          Inl e \<Rightarrow> (Inl e, s)
        | Inr a1 \<Rightarrow>
            (case snake s of
               [] \<Rightarrow> (Inl IndexError, s)
             | head # _ \<Rightarrow>
                 (case setitem a1 (fst head) (snd head) 1 1 of
                    Inl e \<Rightarrow> (Inl e, s)
                  | Inr a2 \<Rightarrow>
                      (case food_position s of
                         None \<Rightarrow> (Inl TypeError, s)
                       | Some food \<Rightarrow>
                           (case setitem a2 (fst food) (snd food) 2 1 of
                              Inl e \<Rightarrow> (Inl e, s)
                            | Inr a3 \<Rightarrow> (Inr a3, s))))))"

text \<open>
  \<^verbatim>\<open>np.array([...], dtype=np.float32)\<close> turns each of the eleven booleans into
  \<open>1.0\<close> or \<open>0.0\<close>.
\<close>

definition get_danger_state :: "SnakeGame \<Rightarrow> real list outcome" where
  "get_danger_state s =
     (case snake s of
        [] \<Rightarrow> (Inl IndexError, s)
      | head # _ \<Rightarrow>
          then_do (\<lambda>s. check_danger (direction s) s) (\<lambda>danger_straight.
          then_do (\<lambda>s. check_danger (get_right_direction s) s) (\<lambda>danger_right.
          then_do (\<lambda>s. check_danger (get_left_direction s) s) (\<lambda>danger_left s.
            case food_position s of
              None \<Rightarrow> (Inl TypeError, s)
            | Some food \<Rightarrow>
                let food_dir = (fst food - fst head, snd food - snd head);
                    food_up = (fst food_dir < 0);
                    food_right = (snd food_dir > 0);
                    food_down = (fst food_dir > 0);
                    food_left = (snd food_dir < 0);
                    dir_right = (direction s = RIGHT);
                    dir_down = (direction s = DOWN);
                    dir_left = (direction s = LEFT);
                    dir_up = (direction s = UP)
                in (Inr (map of_bool
                          [danger_straight, danger_right, danger_left,
                           dir_right, dir_down, dir_left, dir_up,
                           food_up, food_right, food_down, food_left]), s)))) s)"

subsection \<open>Reset and the reachable states\<close>

definition reset :: "nat \<Rightarrow> SnakeGame \<Rightarrow> ndarray outcome" where
  "reset r s =
     (let middle_x = width s div 2;
          middle_y = height s div 2;
          s1 = s\<lparr>snake := [(middle_y, middle_x), (middle_y, middle_x - 1), (middle_y, middle_x - 2)],
                 direction := RIGHT\<rparr>
      in then_do (place_food r)
           (\<lambda>_ s2. get_state (s2\<lparr>score := 0, game_over := False, steps := 0\<rparr>)) s1)"

text \<open>
  The states an engine goes through: the one a call of \<^verbatim>\<open>reset\<close> leaves, on any board
  and with any draw, and the one a call of \<^verbatim>\<open>update\<close> leaves when it was made while
  \<^verbatim>\<open>game_over\<close> was false, with any requested direction and any draw.
\<close>

inductive reachable :: "SnakeGame \<Rightarrow> bool" where
  after_reset: "reachable (snd (reset r s0))"
| after_update: "reachable s \<Longrightarrow> \<not> game_over s \<Longrightarrow> reachable (snd (update d r s))"

code_pred reachable .

text \<open>The fields as \<^verbatim>\<open>__init__\<close> sets them before it calls \<^verbatim>\<open>reset\<close>.\<close>

definition fresh :: "int \<Rightarrow> int \<Rightarrow> SnakeGame" where
  "fresh w h = \<lparr>width = w, height = h, snake = [], direction = RIGHT, food_position = None,
     score = 0, game_over = False, steps = 0\<rparr>"

subsection \<open>Example states\<close>

text \<open>The two scenarios of the specification on the default board of 20 by 20 cells.\<close>

definition scenario_eat :: SnakeGame where
  "scenario_eat = \<lparr>width = 20, height = 20, snake = [(10, 10), (10, 9), (10, 8)],
     direction = RIGHT, food_position = Some (10, 11), score = 0, game_over = False, steps = 0\<rparr>"

definition scenario_wall :: SnakeGame where
  "scenario_wall = \<lparr>width = 20, height = 20, snake = [(0, 5), (1, 5), (2, 5)],
     direction = UP, food_position = Some (10, 11), score = 0, game_over = False, steps = 4\<rparr>"

text \<open>
  The snake of the first scenario fifteen ticks later (one up, ten left, four up): it
  heads up along the left wall.
\<close>

definition scenario_left_wall :: SnakeGame where
  "scenario_left_wall = \<lparr>width = 20, height = 20, snake = [(5, 0), (6, 0), (7, 0)],
     direction = UP, food_position = Some (10, 11), score = 0, game_over = False, steps = 15\<rparr>"

text \<open>A snake curled in a square: the cell ahead of the head is the tail cell.\<close>

definition scenario_loop :: SnakeGame where
  "scenario_loop = \<lparr>width = 5, height = 5, snake = [(0, 0), (0, 1), (1, 1), (1, 0)],
     direction = DOWN, food_position = Some (3, 3), score = 1, game_over = False, steps = 9\<rparr>"

text \<open>Boards of one row and five columns, with the food one or two cells ahead.\<close>

definition scenario_move :: SnakeGame where
  "scenario_move = \<lparr>width = 5, height = 1, snake = [(0, 2), (0, 1), (0, 0)],
     direction = RIGHT, food_position = Some (0, 4), score = 0, game_over = False, steps = 0\<rparr>"

definition scenario_grow :: SnakeGame where
  "scenario_grow = \<lparr>width = 5, height = 1, snake = [(0, 2), (0, 1), (0, 0)],
     direction = RIGHT, food_position = Some (0, 3), score = 0, game_over = False, steps = 0\<rparr>"


definition two_free :: SnakeGame where
  "two_free = \<lparr>width = 5, height = 1, snake = [(0, 2), (0, 1), (0, 0)],
     direction = RIGHT, food_position = None, score = 0, game_over = False, steps = 0\<rparr>"

text \<open>The board of one row and four columns as \<^verbatim>\<open>reset\<close> leaves it.\<close>

definition narrow_start :: SnakeGame where
  "narrow_start = \<lparr>width = 4, height = 1, snake = [(0, 2), (0, 1), (0, 0)],
     direction = RIGHT, food_position = Some (0, 3), score = 0, game_over = False, steps = 0\<rparr>"

text \<open>
  The board of one row and four columns at the moment \<^verbatim>\<open>update\<close> calls \<^verbatim>\<open>place_food\<close>
  in the first tick after \<^verbatim>\<open>reset\<close>: the snake has just grown onto the food and fills
  the board.
\<close>

definition full_board :: SnakeGame where
  "full_board = \<lparr>width = 4, height = 1, snake = [(0, 3), (0, 2), (0, 1), (0, 0)],
     direction = RIGHT, food_position = Some (0, 3), score = 1, game_over = False, steps = 0\<rparr>"

text \<open>
  The state \<^verbatim>\<open>update((0, 2))\<close> leaves from the first scenario: the supplied vector is not
  the reverse of \<^verbatim>\<open>RIGHT\<close>, so it became the current direction.
\<close>

definition scenario_stray :: SnakeGame where
  "scenario_stray = \<lparr>width = 20, height = 20, snake = [(10, 12), (10, 10), (10, 9)],
     direction = (0, 2), food_position = Some (10, 11), score = 0, game_over = False, steps = 1\<rparr>"

section \<open>Properties\<close>

subsection \<open>Auxiliary facts\<close>

lemma adopt_fields [simp]:
  "snake (adopt_direction d s) = snake s"
  "width (adopt_direction d s) = width s"
  "height (adopt_direction d s) = height s"
  "food_position (adopt_direction d s) = food_position s"
  "score (adopt_direction d s) = score s"
  "steps (adopt_direction d s) = steps s"
  "game_over (adopt_direction d s) = game_over s"
  by (simp_all add: adopt_direction_def split: option.split)

lemma off_board_adopt [simp]: "off_board (adopt_direction d s) p = off_board s p"
  by (simp add: off_board_def)

lemma off_board_iff:
  "off_board s p \<longleftrightarrow> \<not> (0 \<le> fst p \<and> fst p < height s \<and> 0 \<le> snd p \<and> snd p < width s)"
  by (auto simp: off_board_def)



text \<open>The three ways a tick ends when the snake has a head.\<close>

lemma update_collision:
  assumes "snake s = head # body"
    and "new_head = (fst head + fst (direction (adopt_direction d s)),
                     snd head + snd (direction (adopt_direction d s)))"
    and "off_board s new_head \<or> new_head \<in> set (snake s)"
  shows "update d r s = (Inr (), (adopt_direction d s)\<lparr>game_over := True\<rparr>)"
  using assms by (auto simp: update_def Let_def)

lemma update_eat:
  assumes "snake s = head # body"
    and "new_head = (fst head + fst (direction (adopt_direction d s)),
                     snd head + snd (direction (adopt_direction d s)))"
    and "\<not> off_board s new_head" and "new_head \<notin> set (snake s)"
    and "food_position s = Some new_head"
  shows "update d r s =
           (Inr (), (snd (place_food r ((adopt_direction d s)
                       \<lparr>snake := new_head # snake s, score := score s + 1\<rparr>)))
                    \<lparr>steps := steps s + 1\<rparr>)"
  using assms by (auto simp: update_def Let_def then_do_def place_food_def)

lemma update_move:
  assumes "snake s = head # body"
    and "new_head = (fst head + fst (direction (adopt_direction d s)),
                     snd head + snd (direction (adopt_direction d s)))"
    and "\<not> off_board s new_head" and "new_head \<notin> set (snake s)"
    and "food_position s \<noteq> Some new_head"
  shows "update d r s =
           (Inr (), (adopt_direction d s)
                    \<lparr>snake := new_head # butlast (snake s), steps := steps s + 1\<rparr>)"
  using assms by (auto simp: update_def Let_def then_do_def)

text \<open>The cells \<^verbatim>\<open>place_food\<close> chooses from.\<close>

lemma set_empty_cells:
  "set (empty_cells s) = {c. \<not> off_board s c \<and> c \<notin> set (snake s)}"
  by (auto simp: empty_cells_def off_board_def)

lemma comprehension_filter:
  "concat (map (\<lambda>i. concat (map (\<lambda>j. if P (i, j) then [(i, j)] else []) ys)) xs)
     = filter P (List.product xs ys)"
proof -
  have inner: "concat (map (\<lambda>j. if P (i, j) then [(i, j)] else []) ys)
                 = filter P (map (Pair i) ys)" for i
    by (induction ys) simp_all
  show ?thesis
    by (induction xs) (simp_all add: inner)
qed

lemma distinct_empty_cells: "distinct (empty_cells s)"
proof -
  have "empty_cells s = filter (\<lambda>c. c \<notin> set (snake s))
                          (List.product [0 .. height s - 1] [0 .. width s - 1])"
    unfolding empty_cells_def
    by (rule comprehension_filter [of "\<lambda>c. c \<notin> set (snake s)"])
  then show ?thesis by (simp add: distinct_product)
qed

lemma empty_cells_cong:
  "width t = width s \<Longrightarrow> height t = height s \<Longrightarrow> snake t = snake s \<Longrightarrow>
   empty_cells t = empty_cells s"
  by (simp add: empty_cells_def)

lemma place_food_fields [simp]:
  "fst (place_food r s) = Inr ()"
  "snake (snd (place_food r s)) = snake s"
  "width (snd (place_food r s)) = width s"
  "height (snd (place_food r s)) = height s"
  "direction (snd (place_food r s)) = direction s"
  "score (snd (place_food r s)) = score s"
  "steps (snd (place_food r s)) = steps s"
  "game_over (snd (place_food r s)) = game_over s"
  by (simp_all add: place_food_def Let_def)

lemma place_food_chosen:
  assumes "empty_cells s \<noteq> []"
  shows "food_position (snd (place_food r s))
           = Some (empty_cells s ! (r mod length (empty_cells s)))"
    and "empty_cells s ! (r mod length (empty_cells s)) \<in> set (empty_cells s)"
  using assms by (simp_all add: place_food_def Let_def)

lemma place_food_full: "empty_cells s = [] \<Longrightarrow> place_food r s = (Inr (), s)"
  by (simp add: place_food_def)

text \<open>What \<^verbatim>\<open>reset\<close> leaves.\<close>

lemma get_state_state [simp]: "snd (get_state s) = s"
  by (simp add: get_state_def split: sum.split list.split option.split)

lemma place_food_returns: "place_food r s = (Inr (), snd (place_food r s))"
  by (simp add: place_food_def Let_def)

lemma reset_state:
  "snd (reset r s) =
     (snd (place_food r
        (s\<lparr>snake := [(height s div 2, width s div 2), (height s div 2, width s div 2 - 1),
                      (height s div 2, width s div 2 - 2)],
            direction := RIGHT\<rparr>)))
     \<lparr>score := 0, game_over := False, steps := 0\<rparr>"
proof -
  let ?s1 = "s\<lparr>snake := [(height s div 2, width s div 2), (height s div 2, width s div 2 - 1),
                          (height s div 2, width s div 2 - 2)],
                direction := RIGHT\<rparr>"
  have "reset r s = get_state ((snd (place_food r ?s1))\<lparr>score := 0, game_over := False, steps := 0\<rparr>)"
    unfolding reset_def Let_def then_do_def
    by (subst place_food_returns) simp
  then show ?thesis by simp
qed

lemma empty_cells_two_free: "empty_cells two_free = [(0, 3), (0, 4)]"
  by (simp add: empty_cells_def two_free_def upto_rec1)

lemma empty_cells_full_board: "empty_cells full_board = []"
  by (simp add: empty_cells_def full_board_def upto_rec1)

subsection \<open>The tick\<close>

text \<open>
  Claim C1, as amended. Whenever \<^verbatim>\<open>update\<close> is called on a state with \<^verbatim>\<open>game_over\<close>
  false whose new head (the head plus the direction in force after the requested one
  was adopted or rejected) is inside the grid and on no snake cell, the call returns
  normally and: if the new head is the food position, the new head is prepended to the
  whole snake, the length and the score grow by one, and, provided the grown snake
  leaves a cell of the board free, new food is placed: the food position becomes the
  free cell the draw selects, a cell of the board off the grown snake and different
  from the old food position (when the grown snake fills the board the food position
  stays as it was); otherwise the new head is prepended and the last cell removed, and
  length, score and food are unchanged. In both cases the step counter grows by
  exactly one.
\<close>

theorem update_advances:
  assumes "\<not> game_over s" and "snake s = head # body"
    and "new_head = (fst head + fst (direction (adopt_direction d s)),
                     snd head + snd (direction (adopt_direction d s)))"
    and "0 \<le> fst new_head \<and> fst new_head < height s
         \<and> 0 \<le> snd new_head \<and> snd new_head < width s"
    and "new_head \<notin> set (snake s)"
  shows "fst (update d r s) = Inr ()
         \<and> (food_position s = Some new_head \<longrightarrow>
              snake (snd (update d r s)) = new_head # snake s
              \<and> length (snake (snd (update d r s))) = length (snake s) + 1
              \<and> score (snd (update d r s)) = score s + 1
              \<and> (empty_cells (s\<lparr>snake := new_head # snake s\<rparr>) \<noteq> [] \<longrightarrow>
                   food_position (snd (update d r s))
                     = Some (empty_cells (s\<lparr>snake := new_head # snake s\<rparr>)
                             ! (r mod length (empty_cells (s\<lparr>snake := new_head # snake s\<rparr>))))
                   \<and> (\<exists>c. food_position (snd (update d r s)) = Some c
                          \<and> \<not> off_board s c \<and> c \<notin> set (snake (snd (update d r s))))
                   \<and> food_position (snd (update d r s)) \<noteq> food_position s)
              \<and> (empty_cells (s\<lparr>snake := new_head # snake s\<rparr>) = [] \<longrightarrow>
                   food_position (snd (update d r s)) = food_position s))
         \<and> (empty_cells (s\<lparr>snake := new_head # snake s\<rparr>) \<noteq> [] \<longleftrightarrow>
              (\<exists>c. \<not> off_board s c \<and> c \<notin> set (new_head # snake s)))
         \<and> (food_position s \<noteq> Some new_head \<longrightarrow>
              snake (snd (update d r s)) = new_head # butlast (snake s)
              \<and> length (snake (snd (update d r s))) = length (snake s)
              \<and> score (snd (update d r s)) = score s
              \<and> food_position (snd (update d r s)) = food_position s)
         \<and> steps (snd (update d r s)) = steps s + 1
         \<and> \<not> game_over (snd (update d r s))"
proof -
  from assms(4) have on: "\<not> off_board s new_head" by (simp add: off_board_iff)
  let ?g = "s\<lparr>snake := new_head # snake s\<rparr>"
  let ?a = "(adopt_direction d s)\<lparr>snake := new_head # snake s, score := score s + 1\<rparr>"
  let ?c = "empty_cells ?g ! (r mod length (empty_cells ?g))"
  have "set (empty_cells ?g) = {c. \<not> off_board s c \<and> c \<notin> set (new_head # snake s)}"
    by (simp add: set_empty_cells off_board_def)
  then have room: "empty_cells ?g \<noteq> [] \<longleftrightarrow>
                     (\<exists>c. \<not> off_board s c \<and> c \<notin> set (new_head # snake s))"
    by (metis (mono_tags, lifting) empty_iff empty_set mem_Collect_eq set_empty2 equals0I)
  show ?thesis
  proof (cases "food_position s = Some new_head")
    case True
    note u = update_eat [OF assms(2,3) on assms(5) True, of r]
    have ec: "empty_cells ?a = empty_cells ?g"
      by (rule empty_cells_cong) simp_all
    have chosen: "food_position (snd (place_food r ?a)) = Some ?c"
      and free: "\<not> off_board s ?c" "?c \<notin> set (new_head # snake s)"
      if "empty_cells ?g \<noteq> []"
    proof -
      from that have ne: "empty_cells ?a \<noteq> []" by (simp add: ec)
      from place_food_chosen(1) [OF ne, of r]
      show "food_position (snd (place_food r ?a)) = Some ?c" by (simp add: ec)
      from place_food_chosen(2) [OF that, of r]
      have "?c \<in> {c. \<not> off_board ?g c \<and> c \<notin> set (snake ?g)}"
        by (simp only: set_empty_cells)
      then show "\<not> off_board s ?c" "?c \<notin> set (new_head # snake s)"
        by (simp_all add: off_board_def)
    qed
    have moved: "Some ?c \<noteq> food_position s" if "empty_cells ?g \<noteq> []"
      using free(2) [OF that] True by auto
    have full: "food_position (snd (place_food r ?a)) = food_position s"
      if "empty_cells ?g = []"
      using that by (simp add: place_food_full ec)
    have "fst (update d r s) = Inr ()
         \<and> snake (snd (update d r s)) = new_head # snake s
         \<and> length (snake (snd (update d r s))) = length (snake s) + 1
         \<and> score (snd (update d r s)) = score s + 1
         \<and> (empty_cells ?g \<noteq> [] \<longrightarrow>
               food_position (snd (update d r s)) = Some ?c
               \<and> (\<exists>c. food_position (snd (update d r s)) = Some c
                      \<and> \<not> off_board s c \<and> c \<notin> set (snake (snd (update d r s))))
               \<and> food_position (snd (update d r s)) \<noteq> food_position s)
         \<and> (empty_cells ?g = [] \<longrightarrow> food_position (snd (update d r s)) = food_position s)
         \<and> steps (snd (update d r s)) = steps s + 1
         \<and> \<not> game_over (snd (update d r s))"
      using assms(1) chosen free moved full by (simp add: u)
    with True room show ?thesis by blast
  next
    case False
    note u = update_move [OF assms(2,3) on assms(5) False, of r]
    have "fst (update d r s) = Inr ()
         \<and> snake (snd (update d r s)) = new_head # butlast (snake s)
         \<and> length (snake (snd (update d r s))) = length (snake s)
         \<and> score (snd (update d r s)) = score s
         \<and> food_position (snd (update d r s)) = food_position s
         \<and> steps (snd (update d r s)) = steps s + 1
         \<and> \<not> game_over (snd (update d r s))"
      using assms(1,2) by (simp add: u)
    with False room show ?thesis by blast
  qed
qed

theorem update_advances_witness:
  "\<not> game_over scenario_grow \<and> snake scenario_grow = (0, 2) # [(0, 1), (0, 0)]
   \<and> (0, 3) \<notin> set (snake scenario_grow)
   \<and> food_position scenario_grow = Some (0, 3)
   \<and> snake (snd (update None 0 scenario_grow)) = [(0, 3), (0, 2), (0, 1), (0, 0)]
   \<and> score (snd (update None 0 scenario_grow)) = 1
   \<and> food_position (snd (update None 0 scenario_grow)) = Some (0, 4)
   \<and> steps (snd (update None 0 scenario_grow)) = 1
   \<and> food_position scenario_move \<noteq> Some (0, 3)
   \<and> snake (snd (update None 0 scenario_move)) = [(0, 3), (0, 2), (0, 1)]
   \<and> score (snd (update None 0 scenario_move)) = 0
   \<and> food_position (snd (update None 0 scenario_move)) = Some (0, 4)
   \<and> steps (snd (update None 0 scenario_move)) = 1"
proof -
  have g: "\<not> game_over scenario_grow" "snake scenario_grow = (0, 2) # [(0, 1), (0, 0)]"
    "(0, 3) = (fst (0 :: int, 2 :: int) + fst (direction (adopt_direction None scenario_grow)),
               snd (0 :: int, 2 :: int) + snd (direction (adopt_direction None scenario_grow)))"
    "0 \<le> fst (0 :: int, 3 :: int) \<and> fst (0 :: int, 3 :: int) < height scenario_grow
       \<and> 0 \<le> snd (0 :: int, 3 :: int) \<and> snd (0 :: int, 3 :: int) < width scenario_grow"
    "(0, 3) \<notin> set (snake scenario_grow)"
    by (simp_all add: scenario_grow_def adopt_direction_def RIGHT_def)
  have m: "\<not> game_over scenario_move" "snake scenario_move = (0, 2) # [(0, 1), (0, 0)]"
    "(0, 3) = (fst (0 :: int, 2 :: int) + fst (direction (adopt_direction None scenario_move)),
               snd (0 :: int, 2 :: int) + snd (direction (adopt_direction None scenario_move)))"
    "0 \<le> fst (0 :: int, 3 :: int) \<and> fst (0 :: int, 3 :: int) < height scenario_move
       \<and> 0 \<le> snd (0 :: int, 3 :: int) \<and> snd (0 :: int, 3 :: int) < width scenario_move"
    "(0, 3) \<notin> set (snake scenario_move)"
    by (simp_all add: scenario_move_def adopt_direction_def RIGHT_def)
  have fg: "food_position scenario_grow = Some (0, 3)" by (simp add: scenario_grow_def)
  have fm: "food_position scenario_move \<noteq> Some (0, 3)" by (simp add: scenario_move_def)
  have ec: "empty_cells (scenario_grow\<lparr>snake := (0, 3) # snake scenario_grow\<rparr>) = [(0, 4)]"
    by (simp add: empty_cells_def scenario_grow_def upto_rec1)
  from update_advances [OF g, of 0] fg
  have G: "snake (snd (update None 0 scenario_grow)) = (0, 3) # snake scenario_grow
           \<and> score (snd (update None 0 scenario_grow)) = score scenario_grow + 1
           \<and> food_position (snd (update None 0 scenario_grow)) = Some (0, 4)
           \<and> steps (snd (update None 0 scenario_grow)) = steps scenario_grow + 1"
    by (simp add: ec)
  from update_advances [OF m, of 0] fm
  have M: "snake (snd (update None 0 scenario_move)) = (0, 3) # butlast (snake scenario_move)
           \<and> score (snd (update None 0 scenario_move)) = score scenario_move
           \<and> food_position (snd (update None 0 scenario_move)) = food_position scenario_move
           \<and> steps (snd (update None 0 scenario_move)) = steps scenario_move + 1"
    by blast
  have v: "snake scenario_grow = [(0, 2), (0, 1), (0, 0)]" "score scenario_grow = 0"
    "steps scenario_grow = 0" "game_over scenario_grow = False"
    "snake scenario_move = [(0, 2), (0, 1), (0, 0)]" "score scenario_move = 0"
    "steps scenario_move = 0" "food_position scenario_move = Some (0, 4)"
    by (simp_all add: scenario_grow_def scenario_move_def)
  show ?thesis
    using G M fg by (simp add: v)
qed

text \<open>
  The claim as first stated fails when the growth fills the board. On the board of one
  row and four columns \<^verbatim>\<open>reset\<close> leaves the food on the only free cell, right ahead of
  the head; the first tick eats it, the snake grows and the score counts, but no new
  food is placed: the food position is still the cell the head now stands on.
\<close>

theorem update_full_board_counterexample:
  "snd (reset 0 (fresh 4 1)) = narrow_start
   \<and> \<not> game_over narrow_start
   \<and> snake narrow_start = [(0, 2), (0, 1), (0, 0)]
   \<and> food_position narrow_start = Some (0, 3)
   \<and> snake (snd (update None 5 narrow_start)) = [(0, 3), (0, 2), (0, 1), (0, 0)]
   \<and> score (snd (update None 5 narrow_start)) = 1
   \<and> steps (snd (update None 5 narrow_start)) = 1
   \<and> food_position (snd (update None 5 narrow_start)) = Some (0, 3)"
proof -
  have r: "snd (reset 0 (fresh 4 1)) = narrow_start"
    by (simp add: reset_state fresh_def place_food_def empty_cells_def upto_rec1
          narrow_start_def)
  have v: "\<not> game_over narrow_start" "snake narrow_start = [(0, 2), (0, 1), (0, 0)]"
    "food_position narrow_start = Some (0, 3)" "score narrow_start = 0"
    "steps narrow_start = 0"
    by (simp_all add: narrow_start_def)
  have h: "snake narrow_start = (0, 2) # [(0, 1), (0, 0)]"
    "(0, 3) = (fst (0 :: int, 2 :: int) + fst (direction (adopt_direction None narrow_start)),
               snd (0 :: int, 2 :: int) + snd (direction (adopt_direction None narrow_start)))"
    "\<not> off_board narrow_start (0, 3)" "(0, 3) \<notin> set (snake narrow_start)"
    "food_position narrow_start = Some (0, 3)"
    by (simp_all add: narrow_start_def adopt_direction_def RIGHT_def off_board_def)
  have g: "(adopt_direction None narrow_start)
             \<lparr>snake := (0, 3) # snake narrow_start, score := score narrow_start + 1\<rparr>
           = full_board"
    by (simp add: adopt_direction_def full_board_def narrow_start_def)
  have u: "snd (update None 5 narrow_start) = full_board\<lparr>steps := 1\<rparr>"
    unfolding update_eat [OF h] g
    by (simp add: place_food_full empty_cells_full_board v)
  have f: "snake (full_board\<lparr>steps := 1\<rparr>) = [(0, 3), (0, 2), (0, 1), (0, 0)]"
    "score (full_board\<lparr>steps := 1\<rparr>) = 1" "steps (full_board\<lparr>steps := 1\<rparr>) = 1"
    "food_position (full_board\<lparr>steps := 1\<rparr>) = Some (0, 3)"
    by (simp_all add: full_board_def)
  from r v show ?thesis unfolding u f by simp
qed

text \<open>
  Claim C2. Whenever the new head (the head plus the direction in force after the
  requested one was adopted or rejected) lies outside \<open>[0, height) \<times> [0, width)\<close> or is a
  cell of the snake, \<^verbatim>\<open>update\<close> returns with \<^verbatim>\<open>game_over\<close> true and has changed nothing
  else in that tick: the snake, the food position, the score and the step counter are
  as before (the state is the one after the direction step with the flag set).
\<close>

theorem update_collision_halts:
  assumes "snake s = head # body"
    and "new_head = (fst head + fst (direction (adopt_direction d s)),
                     snd head + snd (direction (adopt_direction d s)))"
    and "\<not> (0 \<le> fst new_head \<and> fst new_head < height s
            \<and> 0 \<le> snd new_head \<and> snd new_head < width s)
         \<or> new_head \<in> set (snake s)"
  shows "fst (update d r s) = Inr ()
         \<and> game_over (snd (update d r s))
         \<and> snake (snd (update d r s)) = snake s
         \<and> food_position (snd (update d r s)) = food_position s
         \<and> score (snd (update d r s)) = score s
         \<and> steps (snd (update d r s)) = steps s
         \<and> snd (update d r s) = (adopt_direction d s)\<lparr>game_over := True\<rparr>"
proof -
  from assms(3) have "off_board s new_head \<or> new_head \<in> set (snake s)"
    by (simp add: off_board_iff)
  from update_collision [OF assms(1,2) this] show ?thesis by simp
qed

theorem update_collision_halts_witness:
  "snake scenario_wall = (0, 5) # [(1, 5), (2, 5)]
   \<and> \<not> (0 \<le> fst (- 1 :: int, 5 :: int))
   \<and> \<not> game_over scenario_wall
   \<and> game_over (snd (update None 0 scenario_wall))
   \<and> snake (snd (update None 0 scenario_wall)) = [(0, 5), (1, 5), (2, 5)]
   \<and> food_position (snd (update None 0 scenario_wall)) = Some (10, 11)
   \<and> score (snd (update None 0 scenario_wall)) = 0
   \<and> steps (snd (update None 0 scenario_wall)) = 4"
proof -
  have h: "snake scenario_wall = (0, 5) # [(1, 5), (2, 5)]"
    "(- 1, 5) = (fst (0 :: int, 5 :: int) + fst (direction (adopt_direction None scenario_wall)),
                 snd (0 :: int, 5 :: int) + snd (direction (adopt_direction None scenario_wall)))"
    "\<not> (0 \<le> fst (- 1 :: int, 5 :: int) \<and> fst (- 1 :: int, 5 :: int) < height scenario_wall
        \<and> 0 \<le> snd (- 1 :: int, 5 :: int) \<and> snd (- 1 :: int, 5 :: int) < width scenario_wall)
     \<or> (- 1, 5) \<in> set (snake scenario_wall)"
    by (simp_all add: scenario_wall_def adopt_direction_def UP_def)
  have v: "snake scenario_wall = [(0, 5), (1, 5), (2, 5)]"
    "food_position scenario_wall = Some (10, 11)" "score scenario_wall = 0"
    "steps scenario_wall = 4" "game_over scenario_wall = False"
    by (simp_all add: scenario_wall_def)
  from update_collision_halts [OF h, of 0] show ?thesis
    by (simp add: v)
qed

text \<open>
  Claim C10. Whenever the cell ahead of the head (head plus the direction in force) is
  the snake's tail cell and the snake has at least two cells, \<^verbatim>\<open>update\<close> ends the game:
  \<^verbatim>\<open>game_over\<close> is set and the snake is not moved, wherever the food is, so also in a
  tick without growth in which the tail would have left that cell. The membership test
  runs on the whole body before any cell is removed.
\<close>

theorem update_tail_collision:
  assumes "snake s = head # body" and "2 \<le> length (snake s)"
    and "(fst head + fst (direction (adopt_direction d s)),
          snd head + snd (direction (adopt_direction d s))) = last (snake s)"
  shows "fst (update d r s) = Inr ()
         \<and> game_over (snd (update d r s))
         \<and> snake (snd (update d r s)) = snake s
         \<and> food_position (snd (update d r s)) = food_position s
         \<and> score (snd (update d r s)) = score s
         \<and> steps (snd (update d r s)) = steps s"
proof -
  have "last (snake s) \<in> set (snake s)" using assms(1) by simp
  with assms(3) have "off_board s (last (snake s)) \<or> last (snake s) \<in> set (snake s)" by simp
  from update_collision [OF assms(1) assms(3) [symmetric] this] show ?thesis by simp
qed

theorem update_tail_collision_witness:
  "snake scenario_loop = (0, 0) # [(0, 1), (1, 1), (1, 0)]
   \<and> 2 \<le> length (snake scenario_loop)
   \<and> last (snake scenario_loop) = (1, 0)
   \<and> food_position scenario_loop \<noteq> Some (1, 0)
   \<and> \<not> game_over scenario_loop
   \<and> game_over (snd (update None 0 scenario_loop))
   \<and> snake (snd (update None 0 scenario_loop)) = [(0, 0), (0, 1), (1, 1), (1, 0)]
   \<and> steps (snd (update None 0 scenario_loop)) = 9"
proof -
  have h: "snake scenario_loop = (0, 0) # [(0, 1), (1, 1), (1, 0)]"
    "2 \<le> length (snake scenario_loop)"
    "(fst (0 :: int, 0 :: int) + fst (direction (adopt_direction None scenario_loop)),
      snd (0 :: int, 0 :: int) + snd (direction (adopt_direction None scenario_loop)))
       = last (snake scenario_loop)"
    by (simp_all add: scenario_loop_def adopt_direction_def DOWN_def)
  have v: "snake scenario_loop = [(0, 0), (0, 1), (1, 1), (1, 0)]"
    "food_position scenario_loop = Some (3, 3)" "steps scenario_loop = 9"
    "game_over scenario_loop = False"
    by (simp_all add: scenario_loop_def)
  from update_tail_collision [OF h, of 0] show ?thesis
    by (simp add: v)
qed











subsection \<open>Directions\<close>



subsection \<open>Danger lookahead\<close>

text \<open>
  Claim C5. For a snake with a head and any direction \<open>d\<close>, \<^verbatim>\<open>check_danger\<close> returns
  true exactly when head plus \<open>d\<close> lies outside \<open>[0, height) \<times> [0, width)\<close> or is a cell
  of the current snake, the tail cell included (the cell the tail would leave on the
  next move still counts); the state after the call is the state before it.
\<close>

theorem check_danger_lookahead:
  assumes "snake s = head # body"
  shows "check_danger d s =
           (Inr (off_board s (fst head + fst d, snd head + snd d)
                 \<or> (fst head + fst d, snd head + snd d) \<in> set (snake s)), s)
         \<and> (off_board s (fst head + fst d, snd head + snd d) \<longleftrightarrow>
              \<not> (0 \<le> fst head + fst d \<and> fst head + fst d < height s
                 \<and> 0 \<le> snd head + snd d \<and> snd head + snd d < width s))
         \<and> ((fst head + fst d, snd head + snd d) = last (snake s) \<longrightarrow>
              fst (check_danger d s) = Inr True)"
proof -
  have "last (snake s) \<in> set (snake s)" using assms by simp
  then show ?thesis using assms
    by (auto simp: check_danger_def Let_def off_board_def)
qed

theorem check_danger_lookahead_witness:
  "snake scenario_loop = (0, 0) # [(0, 1), (1, 1), (1, 0)]
   \<and> check_danger DOWN scenario_loop = (Inr True, scenario_loop)
   \<and> check_danger UP scenario_loop = (Inr True, scenario_loop)
   \<and> snake scenario_eat = (10, 10) # [(10, 9), (10, 8)]
   \<and> check_danger RIGHT scenario_eat = (Inr False, scenario_eat)"
proof -
  have l: "snake scenario_loop = (0, 0) # [(0, 1), (1, 1), (1, 0)]"
    by (simp add: scenario_loop_def)
  have e: "snake scenario_eat = (10, 10) # [(10, 9), (10, 8)]"
    by (simp add: scenario_eat_def)
  have v: "width scenario_loop = 5" "height scenario_loop = 5"
    "width scenario_eat = 20" "height scenario_eat = 20"
    by (simp_all add: scenario_loop_def scenario_eat_def)
  from check_danger_lookahead [OF l, of DOWN] check_danger_lookahead [OF l, of UP]
    check_danger_lookahead [OF e, of RIGHT]
  show ?thesis
    by (simp add: l e v off_board_def DOWN_def UP_def RIGHT_def)
qed

subsection \<open>Food placement\<close>

text \<open>
  Claim C6, as amended. \<^verbatim>\<open>place_food\<close> returns normally and changes at most the food
  position. The cells it chooses from are exactly the cells of the grid that the snake
  does not occupy, each listed once, so that the index drawn by the generator (below the
  number of free cells) runs one-to-one over them: a uniform draw gives a uniform free
  cell. When a free cell exists, the food position after the call is the chosen free
  cell and is no snake cell. When the snake covers the whole board the state, and so
  the food position, is left as it was; nothing is promised then about food and snake
  being apart.
\<close>

theorem place_food_free_cell:
  "fst (place_food r s) = Inr ()
   \<and> snd (place_food r s) = s\<lparr>food_position := food_position (snd (place_food r s))\<rparr>
   \<and> set (empty_cells s) = {c. \<not> off_board s c \<and> c \<notin> set (snake s)}
   \<and> bij_betw (\<lambda>k. empty_cells s ! k) {..<length (empty_cells s)}
        {c. \<not> off_board s c \<and> c \<notin> set (snake s)}
   \<and> (empty_cells s \<noteq> [] \<longrightarrow>
        r mod length (empty_cells s) < length (empty_cells s)
        \<and> food_position (snd (place_food r s))
            = Some (empty_cells s ! (r mod length (empty_cells s)))
        \<and> (\<exists>c. food_position (snd (place_food r s)) = Some c
                \<and> \<not> off_board s c \<and> c \<notin> set (snake (snd (place_food r s)))))
   \<and> ((\<forall>c. \<not> off_board s c \<longrightarrow> c \<in> set (snake s)) \<longrightarrow> snd (place_food r s) = s)"
proof -
  have same: "snd (place_food r s) = s\<lparr>food_position := food_position (snd (place_food r s))\<rparr>"
    by (simp add: place_food_def Let_def)
  have bij: "bij_betw (\<lambda>k. empty_cells s ! k) {..<length (empty_cells s)}
               {c. \<not> off_board s c \<and> c \<notin> set (snake s)}"
    using bij_betw_nth [OF distinct_empty_cells refl set_empty_cells [symmetric]] .
  have chosen: "\<exists>c. food_position (snd (place_food r s)) = Some c
                  \<and> \<not> off_board s c \<and> c \<notin> set (snake (snd (place_food r s)))"
    if "empty_cells s \<noteq> []"
    using place_food_chosen [OF that, of r] by (simp add: set_empty_cells)
  have full: "snd (place_food r s) = s" if "\<forall>c. \<not> off_board s c \<longrightarrow> c \<in> set (snake s)"
  proof -
    from that have "set (empty_cells s) = {}" by (auto simp: set_empty_cells)
    then show ?thesis by (simp add: place_food_full)
  qed
  show ?thesis
    using same bij chosen full place_food_chosen(1) [of s r]
    by (simp add: set_empty_cells)
qed

theorem place_food_free_cell_witness:
  "empty_cells two_free \<noteq> []
   \<and> food_position (snd (place_food 3 two_free)) = Some (0, 4)
   \<and> (0, 4) \<notin> set (snake (snd (place_food 3 two_free)))
   \<and> empty_cells full_board = []
   \<and> snd (place_food 3 full_board) = full_board"
proof -
  have a: "\<forall>c. \<not> off_board full_board c \<longrightarrow> c \<in> set (snake full_board)"
    using set_empty_cells [of full_board] by (auto simp: empty_cells_full_board)
  have b: "snd (place_food 3 full_board) = full_board"
    using place_food_free_cell [of 3 full_board] a by blast
  have c: "food_position (snd (place_food 3 two_free)) = Some (0, 4)"
    using place_food_free_cell [of 3 two_free]
    by (simp add: empty_cells_two_free eval_nat_numeral mod_Suc)
  have d: "(0, 4) \<notin> set (snake (snd (place_food 3 two_free)))"
    by (simp add: two_free_def)
  have e: "empty_cells two_free \<noteq> []"
    by (simp add: empty_cells_two_free)
  from e c d b show ?thesis by (simp add: empty_cells_full_board)
qed

text \<open>
  The claim as first stated fails on a full board. On the board of one row and four
  columns the first tick after \<^verbatim>\<open>reset\<close> eats the food on the only free cell; when
  \<^verbatim>\<open>update\<close> then calls \<^verbatim>\<open>place_food\<close>, no cell is free and the food stays under the
  snake's head.
\<close>

theorem place_food_full_board_counterexample:
  "snd (update None 0 (snd (reset 0 (fresh 4 1)))) = full_board\<lparr>steps := 1\<rparr>
   \<and> food_position (snd (place_food 0 full_board)) = Some (0, 3)
   \<and> (0, 3) \<in> set (snake (snd (place_food 0 full_board)))"
proof -
  let ?s = "\<lparr>width = 4, height = 1, snake = [(0, 2), (0, 1), (0, 0)], direction = RIGHT,
             food_position = Some (0, 3), score = 0, game_over = False, steps = 0\<rparr>"
  have r: "snd (reset 0 (fresh 4 1)) = ?s"
    by (simp add: reset_state fresh_def place_food_def empty_cells_def upto_rec1)
  have h: "snake ?s = (0, 2) # [(0, 1), (0, 0)]"
    "(0, 3) = (fst (0 :: int, 2 :: int) + fst (direction (adopt_direction None ?s)),
               snd (0 :: int, 2 :: int) + snd (direction (adopt_direction None ?s)))"
    "\<not> off_board ?s (0, 3)" "(0, 3) \<notin> set (snake ?s)" "food_position ?s = Some (0, 3)"
    by (simp_all add: adopt_direction_def RIGHT_def off_board_def)
  have g: "(adopt_direction None ?s)\<lparr>snake := (0, 3) # snake ?s, score := score ?s + 1\<rparr>
             = full_board"
    by (simp add: adopt_direction_def full_board_def)
  have u: "snd (update None 0 (snd (reset 0 (fresh 4 1)))) = full_board\<lparr>steps := 1\<rparr>"
    unfolding r update_eat [OF h] g
    by (simp add: place_food_full empty_cells_full_board)
  have p: "food_position (snd (place_food 0 full_board)) = Some (0, 3)"
    "(0, 3) \<in> set (snake (snd (place_food 0 full_board)))"
    by (simp_all add: place_food_full empty_cells_full_board) (simp_all add: full_board_def)
  from u p show ?thesis by simp
qed

subsection \<open>Reachable states\<close>

lemma update_keeps_distinct:
  assumes "distinct (snake s)"
  shows "distinct (snake (snd (update d r s)))"
proof (cases "snake s")
  case Nil
  then show ?thesis by (simp add: update_def Let_def)
next
  case (Cons head body)
  let ?nh = "(fst head + fst (direction (adopt_direction d s)),
              snd head + snd (direction (adopt_direction d s)))"
  consider (hit) "off_board s ?nh \<or> ?nh \<in> set (snake s)"
    | (eat) "\<not> off_board s ?nh" "?nh \<notin> set (snake s)" "food_position s = Some ?nh"
    | (move) "\<not> off_board s ?nh" "?nh \<notin> set (snake s)" "food_position s \<noteq> Some ?nh"
    by blast
  then show ?thesis
  proof cases
    case hit
    show ?thesis using assms by (simp add: update_collision [OF Cons refl hit])
  next
    case eat
    show ?thesis using assms eat(2) by (simp add: update_eat [OF Cons refl eat])
  next
    case move
    have "?nh \<notin> set (butlast (snake s))"
      using move(2) by (meson in_set_butlastD)
    then show ?thesis
      using assms by (simp add: update_move [OF Cons refl move] distinct_butlast)
  qed
qed

text \<open>
  Claim C8. In every state that \<^verbatim>\<open>reset\<close> leaves, and in every state reached from one
  by calls of \<^verbatim>\<open>update\<close> each made while \<^verbatim>\<open>game_over\<close> was false, the cells of the snake
  are pairwise distinct: \<^verbatim>\<open>reset\<close> lays three different cells, and \<^verbatim>\<open>update\<close> prepends a
  new head only after the membership test found it on no snake cell.
\<close>

theorem reachable_snake_distinct:
  assumes "reachable s"
  shows "distinct (snake s)"
  using assms
proof (induction rule: reachable.induct)
  case (after_reset r s0)
  show ?case by (simp add: reset_state)
next
  case (after_update s d r)
  then show ?case by (simp add: update_keeps_distinct)
qed

lemma reset_fresh_5_1: "snd (reset 1 (fresh 5 1)) = scenario_move"
  by (simp add: reset_state fresh_def place_food_def empty_cells_def upto_rec1 scenario_move_def)

theorem reachable_snake_distinct_witness:
  "reachable (snd (update None 0 (snd (reset 1 (fresh 5 1)))))
   \<and> snake (snd (update None 0 (snd (reset 1 (fresh 5 1))))) = [(0, 3), (0, 2), (0, 1)]
   \<and> distinct (snake (snd (update None 0 (snd (reset 1 (fresh 5 1))))))"
proof -
  have "reachable (snd (reset 1 (fresh 5 1)))" by (rule after_reset)
  moreover have "\<not> game_over (snd (reset 1 (fresh 5 1)))" by (simp add: reset_state)
  ultimately have r: "reachable (snd (update None 0 (snd (reset 1 (fresh 5 1)))))"
    by (rule after_update)
  have h: "snake scenario_move = (0, 2) # [(0, 1), (0, 0)]"
    "(0, 3) = (fst (0 :: int, 2 :: int) + fst (direction (adopt_direction None scenario_move)),
               snd (0 :: int, 2 :: int) + snd (direction (adopt_direction None scenario_move)))"
    "\<not> off_board scenario_move (0, 3)" "(0, 3) \<notin> set (snake scenario_move)"
    "food_position scenario_move \<noteq> Some (0, 3)"
    by (simp_all add: scenario_move_def adopt_direction_def RIGHT_def off_board_def)
  have s: "snake (snd (update None 0 (snd (reset 1 (fresh 5 1))))) = [(0, 3), (0, 2), (0, 1)]"
    unfolding reset_fresh_5_1 by (simp add: update_move [OF h]) (simp add: scenario_move_def)
  from r s reachable_snake_distinct [OF r] show ?thesis by simp
qed

subsection \<open>Grid encoding\<close>

lemma np_index_in_range: "0 \<le> i \<Longrightarrow> i < int n \<Longrightarrow> np_index n i = Some (nat i)"
  by (simp add: np_index_def)

lemma setitem_in_range:
  assumes "shape a = (n0, n1, n2)"
    and "0 \<le> i" "i < int n0" "0 \<le> j" "j < int n1" "0 \<le> k" "k < int n2"
  shows "setitem a i j k v = Inr (a\<lparr>entry := (entry a)((nat i, nat j, nat k) := v)\<rparr>)"
  using assms by (simp add: setitem_def np_index_in_range)

lemma mark_body_in_range:
  assumes "shape a = (n0, n1, n2)" and "0 < n2"
    and "\<forall>c \<in> set xs. 0 \<le> fst c \<and> fst c < int n0 \<and> 0 \<le> snd c \<and> snd c < int n1"
  shows "mark_body xs a =
           Inr (a\<lparr>entry := (\<lambda>(i, j, k). if k = 0 \<and> (int i, int j) \<in> set xs then 1
                                          else entry a (i, j, k))\<rparr>)"
  using assms
proof (induction xs arbitrary: a)
  case Nil
  then show ?case by simp
next
  case (Cons c xs)
  let ?a' = "a\<lparr>entry := (entry a)((nat (fst c), nat (snd c), 0) := 1)\<rparr>"
  have c: "0 \<le> fst c" "fst c < int n0" "0 \<le> snd c" "snd c < int n1"
    using Cons.prems(3) by simp_all
  have st: "setitem a (fst c) (snd c) 0 1 = Inr ?a'"
    using setitem_in_range [OF Cons.prems(1) c, of 0 1] Cons.prems(2) by simp
  have sh: "shape ?a' = (n0, n1, n2)" using Cons.prems(1) by simp
  have rest: "\<forall>c \<in> set xs. 0 \<le> fst c \<and> fst c < int n0 \<and> 0 \<le> snd c \<and> snd c < int n1"
    using Cons.prems(3) by simp
  have eq: "(nat (fst c) = i \<and> nat (snd c) = j) \<longleftrightarrow> (int i, int j) = c" for i j
    using c by (cases c) auto
  have fn: "(\<lambda>(i, j, k). if k = 0 \<and> (int i, int j) \<in> set xs then 1 else entry ?a' (i, j, k))
            = (\<lambda>(i, j, k). if k = 0 \<and> (int i, int j) \<in> set (c # xs) then 1
                            else entry a (i, j, k))"
    using eq c by (auto simp: fun_eq_iff)
  show ?case
    by (simp add: st Cons.IH [OF sh Cons.prems(2) rest] fn del: set_simps)
qed

text \<open>
  Claim C7. For every state whose snake has a head, whose snake cells all lie inside
  the grid and whose food position is a cell inside the grid, \<^verbatim>\<open>get_state\<close> returns an
  array of shape \<open>(height, width, 3)\<close> whose entry \<open>(r, c, 0)\<close> is 1 exactly when
  \<open>(r, c)\<close> is a snake cell after the head, whose entry \<open>(r, c, 1)\<close> is 1 exactly when
  \<open>(r, c)\<close> is the head, whose entry \<open>(r, c, 2)\<close> is 1 exactly when \<open>(r, c)\<close> is the
  food cell, and whose every other entry is 0; the state after the call is the state
  before it.
\<close>

theorem get_state_encoding:
  assumes "snake s = head # body"
    and "\<forall>c \<in> set (snake s). 0 \<le> fst c \<and> fst c < height s \<and> 0 \<le> snd c \<and> snd c < width s"
    and "food_position s = Some food"
    and "0 \<le> fst food \<and> fst food < height s \<and> 0 \<le> snd food \<and> snd food < width s"
  shows "\<exists>a. get_state s = (Inr a, s)
           \<and> shape a = (nat (height s), nat (width s), 3)
           \<and> (\<forall>r c k. entry a (r, c, k) =
                 (if k = 0 \<and> (int r, int c) \<in> set body then 1
                  else if k = 1 \<and> (int r, int c) = head then 1
                  else if k = 2 \<and> (int r, int c) = food then 1
                  else 0))"
proof -
  let ?z = "zeros (nat (height s), nat (width s), 3)"
  let ?a1 = "?z\<lparr>entry := (\<lambda>(i, j, k). if k = 0 \<and> (int i, int j) \<in> set body then 1
                                       else entry ?z (i, j, k))\<rparr>"
  let ?a2 = "?a1\<lparr>entry := (entry ?a1)((nat (fst head), nat (snd head), nat 1) := 1)\<rparr>"
  let ?a3 = "?a2\<lparr>entry := (entry ?a2)((nat (fst food), nat (snd food), nat 2) := 1)\<rparr>"
  have hd: "0 \<le> fst head" "fst head < height s" "0 \<le> snd head" "snd head < width s"
    using assms(1,2) by simp_all
  have pos: "\<not> (height s < 0 \<or> width s < 0)" using hd by linarith
  have shz: "shape ?z = (nat (height s), nat (width s), 3)" by (simp add: zeros_def)
  have bd: "\<forall>c \<in> set body. 0 \<le> fst c \<and> fst c < int (nat (height s))
              \<and> 0 \<le> snd c \<and> snd c < int (nat (width s))"
    using assms(1,2) by auto
  have m: "mark_body (drop 1 (head # body)) ?z = Inr ?a1"
    using mark_body_in_range [OF shz _ bd] by simp
  have sh1: "shape ?a1 = (nat (height s), nat (width s), 3)" by (simp add: zeros_def)
  have s1: "setitem ?a1 (fst head) (snd head) 1 1 = Inr ?a2"
    by (rule setitem_in_range [OF sh1]) (use hd in simp_all)
  have sh2: "shape ?a2 = (nat (height s), nat (width s), 3)" by (simp add: zeros_def)
  have s2: "setitem ?a2 (fst food) (snd food) 2 1 = Inr ?a3"
    by (rule setitem_in_range [OF sh2]) (use assms(4) in simp_all)
  have g: "get_state s = (Inr ?a3, s)"
    unfolding get_state_def using pos
    by (simp only: if_False m s1 s2 assms(1,3) sum.case list.case option.case)
  have eqh: "(r = nat (fst head) \<and> c = nat (snd head)) \<longleftrightarrow> (int r, int c) = head" for r c
    using hd by (cases head) auto
  have eqf: "(r = nat (fst food) \<and> c = nat (snd food)) \<longleftrightarrow> (int r, int c) = food" for r c
    using assms(4) by (cases food) auto
  have en: "entry ?a3 (r, c, k) =
              (if k = 0 \<and> (int r, int c) \<in> set body then 1
               else if k = 1 \<and> (int r, int c) = head then 1
               else if k = 2 \<and> (int r, int c) = food then 1
               else 0)" for r c k
    using eqh [of r c] eqf [of r c] by (auto simp: zeros_def)
  have sh3: "shape ?a3 = (nat (height s), nat (width s), 3)" by (simp add: zeros_def)
  from g sh3 en show ?thesis by blast
qed

theorem get_state_encoding_witness:
  "snake scenario_move = (0, 2) # [(0, 1), (0, 0)]
   \<and> food_position scenario_move = Some (0, 4)
   \<and> snd (get_state scenario_move) = scenario_move
   \<and> \<not> isl (fst (get_state scenario_move))
   \<and> shape (projr (fst (get_state scenario_move))) = (1, 5, 3)
   \<and> map (\<lambda>c. entry (projr (fst (get_state scenario_move))) (0, c, 0)) [0, 1, 2, 3, 4]
       = [1, 1, 0, 0, 0]
   \<and> map (\<lambda>c. entry (projr (fst (get_state scenario_move))) (0, c, 1)) [0, 1, 2, 3, 4]
       = [0, 0, 1, 0, 0]
   \<and> map (\<lambda>c. entry (projr (fst (get_state scenario_move))) (0, c, 2)) [0, 1, 2, 3, 4]
       = [0, 0, 0, 0, 1]"
proof -
  have h: "snake scenario_move = (0, 2) # [(0, 1), (0, 0)]"
    "\<forall>c \<in> set (snake scenario_move).
       0 \<le> fst c \<and> fst c < height scenario_move \<and> 0 \<le> snd c \<and> snd c < width scenario_move"
    "food_position scenario_move = Some (0, 4)"
    "0 \<le> fst (0 :: int, 4 :: int) \<and> fst (0 :: int, 4 :: int) < height scenario_move
       \<and> 0 \<le> snd (0 :: int, 4 :: int) \<and> snd (0 :: int, 4 :: int) < width scenario_move"
    by (simp_all add: scenario_move_def)
  from get_state_encoding [OF h] obtain a where
    a: "get_state scenario_move = (Inr a, scenario_move)"
      "shape a = (nat (height scenario_move), nat (width scenario_move), 3)"
      "\<And>r c k. entry a (r, c, k) =
                 (if k = 0 \<and> (int r, int c) \<in> set [(0, 1), (0, 0)] then 1
                  else if k = 1 \<and> (int r, int c) = (0, 2) then 1
                  else if k = 2 \<and> (int r, int c) = (0, 4) then 1
                  else 0)"
    by blast
  have wh: "width scenario_move = 5" "height scenario_move = 1"
    by (simp_all add: scenario_move_def)
  show ?thesis
    by (simp add: a h(1,3) wh)
qed

subsection \<open>Feature vector\<close>

lemma check_danger_head:
  "snake s = head # body \<Longrightarrow>
   check_danger d s =
     (Inr (off_board s (fst head + fst d, snd head + snd d)
           \<or> (fst head + fst d, snd head + snd d) \<in> set (snake s)), s)"
  by (simp add: check_danger_def Let_def)

lemma directions_distinct:
  "RIGHT \<noteq> DOWN" "RIGHT \<noteq> LEFT" "RIGHT \<noteq> UP" "DOWN \<noteq> LEFT" "DOWN \<noteq> UP" "LEFT \<noteq> UP"
  by (simp_all add: RIGHT_def DOWN_def LEFT_def UP_def)

text \<open>
  Claim C4, as amended. For every state with a snake head and a food position,
  \<^verbatim>\<open>get_danger_state\<close> returns the eleven numbers, each 1 for true and 0 for false, in
  the order danger straight, right, left; direction right, down, left, up; food up,
  right, down, left. The danger entries are the results of \<^verbatim>\<open>check_danger\<close> on the
  current direction and on its right and left rotations: for a current direction that
  is one of the four \<^verbatim>\<open>Direction\<close> values these are the quarter turns of the tables
  (right: \<^verbatim>\<open>RIGHT\<close> to \<^verbatim>\<open>DOWN\<close> to \<^verbatim>\<open>LEFT\<close> to \<^verbatim>\<open>UP\<close> to \<^verbatim>\<open>RIGHT\<close>; left: the reverse
  cycle), and exactly one direction entry is true, the one of the current direction.
  For any other current vector both tables give \<^verbatim>\<open>RIGHT\<close> and no direction entry is
  true. Food is up when its row is smaller than the head's, down when larger, right
  when its column is larger, left when smaller. The state after the call is the state
  before it.
\<close>

theorem get_danger_state_vector:
  assumes "snake s = head # body" and "food_position s = Some food"
  shows "\<exists>danger_straight danger_right danger_left.
           check_danger (direction s) s = (Inr danger_straight, s)
         \<and> check_danger (get_right_direction s) s = (Inr danger_right, s)
         \<and> check_danger (get_left_direction s) s = (Inr danger_left, s)
         \<and> get_danger_state s =
             (Inr (map of_bool
                     [danger_straight, danger_right, danger_left,
                      direction s = RIGHT, direction s = DOWN, direction s = LEFT,
                      direction s = UP,
                      fst food < fst head, snd food > snd head,
                      fst food > fst head, snd food < snd head]), s)
         \<and> length (projr (fst (get_danger_state s))) = 11
         \<and> length (filter (\<lambda>b. b) [direction s = RIGHT, direction s = DOWN,
                                   direction s = LEFT, direction s = UP])
             = (if direction s \<in> {RIGHT, DOWN, LEFT, UP} then 1 else 0)
         \<and> (direction s = RIGHT \<longrightarrow> get_right_direction s = DOWN \<and> get_left_direction s = UP)
         \<and> (direction s = DOWN \<longrightarrow> get_right_direction s = LEFT \<and> get_left_direction s = RIGHT)
         \<and> (direction s = LEFT \<longrightarrow> get_right_direction s = UP \<and> get_left_direction s = DOWN)
         \<and> (direction s = UP \<longrightarrow> get_right_direction s = RIGHT \<and> get_left_direction s = LEFT)
         \<and> (direction s \<in> {RIGHT, DOWN, LEFT, UP} \<longrightarrow>
              get_right_direction s = (snd (direction s), - fst (direction s))
              \<and> get_left_direction s = (- snd (direction s), fst (direction s)))
         \<and> (direction s \<notin> {RIGHT, DOWN, LEFT, UP} \<longrightarrow>
              get_right_direction s = RIGHT \<and> get_left_direction s = RIGHT)"
proof -
  let ?p = "\<lambda>d. off_board s (fst head + fst d, snd head + snd d)
                \<or> (fst head + fst d, snd head + snd d) \<in> set (snake s)"
  have cd: "check_danger d s = (Inr (?p d), s)" for d
    by (rule check_danger_head [OF assms(1)])
  have g: "get_danger_state s =
             (Inr (map of_bool
                     [?p (direction s), ?p (get_right_direction s), ?p (get_left_direction s),
                      direction s = RIGHT, direction s = DOWN, direction s = LEFT,
                      direction s = UP,
                      fst food < fst head, snd food > snd head,
                      fst food > fst head, snd food < snd head]), s)"
    by (simp add: get_danger_state_def assms then_do_def cd Let_def)
  have one: "length (filter (\<lambda>b. b) [direction s = RIGHT, direction s = DOWN,
                                     direction s = LEFT, direction s = UP])
               = (if direction s \<in> {RIGHT, DOWN, LEFT, UP} then 1 else 0)"
    using directions_distinct by auto
  have len: "length (projr (fst (get_danger_state s))) = 11"
    by (simp add: g)
  have tr: "direction s = RIGHT \<longrightarrow> get_right_direction s = DOWN \<and> get_left_direction s = UP"
    by (simp add: get_right_direction_def get_left_direction_def)
  have td: "direction s = DOWN \<longrightarrow> get_right_direction s = LEFT \<and> get_left_direction s = RIGHT"
    using directions_distinct
    by (simp add: get_right_direction_def get_left_direction_def)
  have tl: "direction s = LEFT \<longrightarrow> get_right_direction s = UP \<and> get_left_direction s = DOWN"
    using directions_distinct
    by (simp add: get_right_direction_def get_left_direction_def)
  have tu: "direction s = UP \<longrightarrow> get_right_direction s = RIGHT \<and> get_left_direction s = LEFT"
    using directions_distinct
    by (simp add: get_right_direction_def get_left_direction_def)
  have quarter: "direction s \<in> {RIGHT, DOWN, LEFT, UP} \<longrightarrow>
                   get_right_direction s = (snd (direction s), - fst (direction s))
                   \<and> get_left_direction s = (- snd (direction s), fst (direction s))"
    using tr td tl tu by (auto simp: RIGHT_def DOWN_def LEFT_def UP_def)
  have other: "direction s \<notin> {RIGHT, DOWN, LEFT, UP} \<longrightarrow>
                 get_right_direction s = RIGHT \<and> get_left_direction s = RIGHT"
    by (simp add: get_right_direction_def get_left_direction_def)
  from cd g len one have "\<exists>danger_straight danger_right danger_left.
           check_danger (direction s) s = (Inr danger_straight, s)
         \<and> check_danger (get_right_direction s) s = (Inr danger_right, s)
         \<and> check_danger (get_left_direction s) s = (Inr danger_left, s)
         \<and> get_danger_state s =
             (Inr (map of_bool
                     [danger_straight, danger_right, danger_left,
                      direction s = RIGHT, direction s = DOWN, direction s = LEFT,
                      direction s = UP,
                      fst food < fst head, snd food > snd head,
                      fst food > fst head, snd food < snd head]), s)
         \<and> length (projr (fst (get_danger_state s))) = 11
         \<and> length (filter (\<lambda>b. b) [direction s = RIGHT, direction s = DOWN,
                                   direction s = LEFT, direction s = UP])
             = (if direction s \<in> {RIGHT, DOWN, LEFT, UP} then 1 else 0)"
    by blast
  with tr td tl tu quarter other show ?thesis by blast
qed

theorem get_danger_state_vector_witness:
  "snake scenario_eat = (10, 10) # [(10, 9), (10, 8)]
   \<and> food_position scenario_eat = Some (10, 11)
   \<and> direction scenario_eat = RIGHT
   \<and> get_right_direction scenario_eat = DOWN
   \<and> get_left_direction scenario_eat = UP
   \<and> get_danger_state scenario_eat = (Inr [0, 0, 0, 1, 0, 0, 0, 0, 1, 0, 0], scenario_eat)
   \<and> snake scenario_left_wall = (5, 0) # [(6, 0), (7, 0)]
   \<and> food_position scenario_left_wall = Some (10, 11)
   \<and> direction scenario_left_wall = UP
   \<and> get_right_direction scenario_left_wall = RIGHT
   \<and> get_left_direction scenario_left_wall = LEFT
   \<and> check_danger RIGHT scenario_left_wall = (Inr False, scenario_left_wall)
   \<and> check_danger LEFT scenario_left_wall = (Inr True, scenario_left_wall)
   \<and> get_danger_state scenario_left_wall
       = (Inr [0, 0, 1, 0, 0, 0, 1, 0, 1, 1, 0], scenario_left_wall)"
proof -
  have e: "snake scenario_eat = (10, 10) # [(10, 9), (10, 8)]"
    "food_position scenario_eat = Some (10, 11)"
    by (simp_all add: scenario_eat_def)
  have l: "snake scenario_left_wall = (5, 0) # [(6, 0), (7, 0)]"
    "food_position scenario_left_wall = Some (10, 11)"
    by (simp_all add: scenario_left_wall_def)
  have de: "direction scenario_eat = RIGHT" "width scenario_eat = 20" "height scenario_eat = 20"
    by (simp_all add: scenario_eat_def)
  have dl: "direction scenario_left_wall = UP" "width scenario_left_wall = 20"
    "height scenario_left_wall = 20"
    by (simp_all add: scenario_left_wall_def)
  from get_danger_state_vector [OF e] de(1) obtain a b c where
    te: "get_right_direction scenario_eat = DOWN" "get_left_direction scenario_eat = UP"
    and ce: "check_danger RIGHT scenario_eat = (Inr a, scenario_eat)"
      "check_danger (get_right_direction scenario_eat) scenario_eat = (Inr b, scenario_eat)"
      "check_danger (get_left_direction scenario_eat) scenario_eat = (Inr c, scenario_eat)"
    and ge: "get_danger_state scenario_eat =
       (Inr (map of_bool
               [a, b, c,
                RIGHT = RIGHT, RIGHT = DOWN, RIGHT = LEFT, RIGHT = UP,
                fst (10 :: int, 11 :: int) < fst (10 :: int, 10 :: int),
                snd (10 :: int, 11 :: int) > snd (10 :: int, 10 :: int),
                fst (10 :: int, 11 :: int) > fst (10 :: int, 10 :: int),
                snd (10 :: int, 11 :: int) < snd (10 :: int, 10 :: int)]), scenario_eat)"
    by auto
  have abc: "\<not> a" "\<not> b" "\<not> c"
    using ce unfolding te check_danger_head [OF e(1)]
    by (simp_all add: e de off_board_def RIGHT_def DOWN_def UP_def)
  have ve: "get_danger_state scenario_eat
              = (Inr [0, 0, 0, 1, 0, 0, 0, 0, 1, 0, 0], scenario_eat)"
    using abc by (simp add: ge directions_distinct)
  from get_danger_state_vector [OF l] dl(1) obtain a' b' c' where
    tl: "get_right_direction scenario_left_wall = RIGHT"
      "get_left_direction scenario_left_wall = LEFT"
    and cl: "check_danger UP scenario_left_wall = (Inr a', scenario_left_wall)"
      "check_danger (get_right_direction scenario_left_wall) scenario_left_wall
         = (Inr b', scenario_left_wall)"
      "check_danger (get_left_direction scenario_left_wall) scenario_left_wall
         = (Inr c', scenario_left_wall)"
    and gl: "get_danger_state scenario_left_wall =
       (Inr (map of_bool
               [a', b', c',
                UP = RIGHT, UP = DOWN, UP = LEFT, UP = UP,
                fst (10 :: int, 11 :: int) < fst (5 :: int, 0 :: int),
                snd (10 :: int, 11 :: int) > snd (5 :: int, 0 :: int),
                fst (10 :: int, 11 :: int) > fst (5 :: int, 0 :: int),
                snd (10 :: int, 11 :: int) < snd (5 :: int, 0 :: int)]), scenario_left_wall)"
    by auto
  have abc': "\<not> a'" "\<not> b'" "c'"
    using cl unfolding tl check_danger_head [OF l(1)]
    by (simp_all add: l dl off_board_def RIGHT_def LEFT_def UP_def)
  have vl: "get_danger_state scenario_left_wall
              = (Inr [0, 0, 1, 0, 0, 0, 1, 0, 1, 1, 0], scenario_left_wall)"
    using abc' by (simp add: gl directions_distinct directions_distinct [symmetric])
  have dr: "check_danger RIGHT scenario_left_wall = (Inr False, scenario_left_wall)"
    "check_danger LEFT scenario_left_wall = (Inr True, scenario_left_wall)"
    using cl(2,3) abc' unfolding tl by simp_all
  from e l de(1) dl(1) te tl ve vl dr show ?thesis by simp
qed

text \<open>
  The claim as first stated fails on the direction entries: \<^verbatim>\<open>update\<close> adopts any
  vector that is not the reverse of the current one, here \<open>(0, 2)\<close>, and in the state it
  leaves no direction entry is true; the tables give the same vector \<^verbatim>\<open>RIGHT\<close> as the
  right and as the left rotation.
\<close>

theorem get_danger_state_one_hot_counterexample:
  "snd (update (Some (0, 2)) 0 scenario_eat) = scenario_stray
   \<and> get_danger_state scenario_stray = (Inr [0, 0, 0, 0, 0, 0, 0, 0, 0, 0, 1], scenario_stray)
   \<and> get_right_direction scenario_stray = RIGHT
   \<and> get_left_direction scenario_stray = RIGHT"
proof -
  have h: "snake scenario_eat = (10, 10) # [(10, 9), (10, 8)]"
    "(10, 12) = (fst (10 :: int, 10 :: int)
                   + fst (direction (adopt_direction (Some (0, 2)) scenario_eat)),
                 snd (10 :: int, 10 :: int)
                   + snd (direction (adopt_direction (Some (0, 2)) scenario_eat)))"
    "\<not> off_board scenario_eat (10, 12)" "(10, 12) \<notin> set (snake scenario_eat)"
    "food_position scenario_eat \<noteq> Some (10, 12)"
    by (simp_all add: scenario_eat_def adopt_direction_def is_valid_direction_def RIGHT_def
          off_board_def)
  have u: "snd (update (Some (0, 2)) 0 scenario_eat) = scenario_stray"
    by (simp add: update_move [OF h])
      (simp add: scenario_eat_def scenario_stray_def adopt_direction_def
         is_valid_direction_def RIGHT_def)
  have s: "snake scenario_stray = (10, 12) # [(10, 10), (10, 9)]"
    "food_position scenario_stray = Some (10, 11)" "direction scenario_stray = (0, 2)"
    "width scenario_stray = 20" "height scenario_stray = 20"
    by (simp_all add: scenario_stray_def)
  have g: "get_danger_state scenario_stray
             = (Inr [0, 0, 0, 0, 0, 0, 0, 0, 0, 0, 1], scenario_stray)"
    by (simp add: get_danger_state_def s then_do_def check_danger_head [OF s(1)]
          get_right_direction_def get_left_direction_def off_board_def
          RIGHT_def DOWN_def LEFT_def UP_def)
  have t: "get_right_direction scenario_stray = RIGHT"
    "get_left_direction scenario_stray = RIGHT"
    by (simp_all add: get_right_direction_def get_left_direction_def s
          RIGHT_def DOWN_def LEFT_def UP_def)
  from u g t show ?thesis by simp
qed

end
